theory Spec2Isabelle
  imports Complex_Main "HOL-Library.Signed_Division"
begin

section \<open>The driver of the simulator (src/src/sputniPIC.cpp)\<close>

text \<open>
  The repository's source is the driver \<open>main\<close>: it reads the parameters, sets up the
  grid, declares two replicas of every store (one for the CPU path, one for the
  accelerator path), allocates stores, runs the cycles, compares charge densities
  and releases stores. Every routine it calls (allocators, initial condition, mover,
  interpolation, boundary conditions, writers) lives in other files; the model records
  each call with its arguments, in the order \<open>main\<close> makes them.

  The C++ type \<open>int\<close> has 32 bits. Where \<open>main\<close> evaluates the loop bound or the
  remainder by the output cadence on the parameters, the model returns a fault for
  signed overflow and for division by zero. The index arithmetic of the comparison
  loops wraps around at 32 bits, as two's-complement hardware computes it.
  The floating-point types of the densities are declared outside the driver's file
  (\<open>PrecisionTypes.h\<close>); the arithmetic of the comparison (\<open>0.0f\<close>, \<open>fabs(a - b)\<close>,
  \<open>maxError = fmax(maxError, d)\<close>) is a parameter of the model.
  Timers (\<open>cpuSecond\<close>) and banner output are left out.
\<close>

subsection \<open>Data\<close>

text \<open>The fields of \<open>parameters\<close> and \<open>grid\<close> that \<open>main\<close> reads.\<close>

record parameters =
  ns :: int
  ncycles :: int
  first_cycle_n :: int
  FieldOutputCycle :: int

record grid =
  nxn :: int
  nyn :: int
  nzn :: int

datatype replica = CPU | GPU

text \<open>
  The objects \<open>main\<close> declares: \<open>param\<close>, \<open>grd\<close>, \<open>fieldCPU\<close>/\<open>fieldGPU\<close> (of type
  \<open>EMfield\<close>), \<open>field_auxCPU\<close>/\<open>field_auxGPU\<close> (of type \<open>EMfield_aux\<close>), the arrays
  \<open>idsCPU\<close>/\<open>idsGPU\<close> and their elements \<open>idsCPU[is]\<close>, \<open>idnCPU\<close>/\<open>idnGPU\<close>, the arrays
  \<open>partCPU\<close>/\<open>partGPU\<close> and their elements.
\<close>

datatype store =
    Param
  | Grd
  | EMfield replica
  | EMfield_aux replica
  | Ids_array replica
  | Ids replica int
  | Idn replica
  | Part_array replica
  | Part replica int

text \<open>
  An argument of a call: the address of an object, the member \<open>rhon\<close> of one
  (\<open>idnCPU.rhon\<close>), an integer, a string literal, or \<open>argc\<close>, \<open>argv\<close>.
\<close>

datatype arg = Ref store | Rhon store | Num int | Str string | Argc | Argv

datatype callee =
    readInputFile | printParameters | saveParameters | setGrid
  | field_allocate | field_aux_allocate
  | interp_dens_species_allocate | interp_dens_net_allocate | particle_allocate
  | initGEM
  | setZeroDensities
  | mover_PC | mover_PC_GPU_basic
  | interpP2G | interpP2G_GPU_basic
  | applyBCids | sumOverSpecies | applyBCscalarDensN
  | VTK_Write_Vectors | VTK_Write_Scalars
  | grid_deallocate | field_deallocate
  | interp_dens_net_deallocate | interp_dens_species_deallocate | particle_deallocate

text \<open>
  What \<open>main\<close> does, step by step: a call, an array \<open>new T[n]\<close>, or a line of the
  comparison report (\<open>std::cout << "Max error ...: " << maxError\<close>).
\<close>

datatype 'v event =
    Call callee "arg list"
  | New_array store int
  | Report string 'v

subsection \<open>The comparison of the two views (lines 149 to 190)\<close>

text \<open>
  The value a 32-bit \<open>int\<close> holds after an operation whose exact result is \<open>n\<close>.
\<close>

definition wrap_int :: "int \<Rightarrow> int" where
  "wrap_int n = (n + 2 ^ 31) mod 2 ^ 32 - 2 ^ 31"

definition fits_int :: "int \<Rightarrow> bool" where
  "fits_int n \<longleftrightarrow> - (2 ^ 31) \<le> n \<and> n < 2 ^ 31"

text \<open>
  The index into the flat view, as both comparison loops write it:
  \<open>k * (grd.nxn + grd.nyn) + j * (grd.nxn) + i\<close>, every operation on \<open>int\<close>.
\<close>

definition flat_index :: "grid \<Rightarrow> int \<Rightarrow> int \<Rightarrow> int \<Rightarrow> int" where
  "flat_index grd i j k =
     wrap_int (wrap_int (wrap_int (k * wrap_int (nxn grd + nyn grd)) + wrap_int (j * nxn grd)) + i)"

text \<open>
  A cell the comparison reads: \<open>s.rhon[i][j][k]\<close> of the nested view or
  \<open>s.rhon_flat[n]\<close> of the flat view of the charge density of a store.
\<close>

datatype cell = Nested store int int int | Flat store int

text \<open>
  The pairs of cells the two loop nests subtract, in loop order: species outermost
  (first loop nest only), then \<open>i\<close>, then \<open>j\<close>, then \<open>k\<close>.
\<close>

definition ids_comparisons :: "parameters \<Rightarrow> grid \<Rightarrow> (cell \<times> cell) list" where
  "ids_comparisons param grd =
     [(Nested (Ids CPU is) i j k, Flat (Ids GPU is) (flat_index grd i j k)).
        is \<leftarrow> [0 .. ns param - 1], i \<leftarrow> [0 .. nxn grd - 1],
        j \<leftarrow> [0 .. nyn grd - 1], k \<leftarrow> [0 .. nzn grd - 1]]"

definition idn_comparisons :: "grid \<Rightarrow> (cell \<times> cell) list" where
  "idn_comparisons grd =
     [(Nested (Idn CPU) i j k, Flat (Idn CPU) (flat_index grd i j k)).
        i \<leftarrow> [0 .. nxn grd - 1], j \<leftarrow> [0 .. nyn grd - 1], k \<leftarrow> [0 .. nzn grd - 1]]"

text \<open>
  The values of the charge densities when the comparison runs. They are written by
  routines outside \<open>main\<close>, so they are an input of the model. \<open>'v\<close> is the type of a
  floating-point value.
\<close>

record 'v memory =
  rhon :: "store \<Rightarrow> int \<Rightarrow> int \<Rightarrow> int \<Rightarrow> 'v"
  rhon_flat :: "store \<Rightarrow> int \<Rightarrow> 'v"

fun fetch :: "'v memory \<Rightarrow> cell \<Rightarrow> 'v" where
  "fetch m (Nested s i j k) = rhon m s i j k"
| "fetch m (Flat s n) = rhon_flat m s n"

text \<open>
  The floating-point operations of the comparison: the constant \<open>0.0f\<close>, \<open>fabs(a - b)\<close>
  on two density values, and the value the \<open>float\<close> variable holds after
  \<open>maxError = fmax(maxError, d)\<close>.
\<close>

record 'v arith =
  zero_f :: 'v
  fabs_diff :: "'v \<Rightarrow> 'v \<Rightarrow> 'v"
  fmax_f :: "'v \<Rightarrow> 'v \<Rightarrow> 'v"

text \<open>
  \<open>maxError = 0.0f; ... maxError = fmax(maxError, fabs(a - b));\<close> over the pairs, in
  loop order.
\<close>

definition maxError :: "'v arith \<Rightarrow> 'v memory \<Rightarrow> (cell \<times> cell) list \<Rightarrow> 'v" where
  "maxError arith m cs =
     foldl (\<lambda>acc (a, b). fmax_f arith acc (fabs_diff arith (fetch m a) (fetch m b)))
       (zero_f arith) cs"

definition verifier :: "'v arith \<Rightarrow> parameters \<Rightarrow> grid \<Rightarrow> 'v memory \<Rightarrow> 'v event list" where
  "verifier arith param grd m =
     [Report ''Max error idsrhon: '' (maxError arith m (ids_comparisons param grd)),
      Report ''Max error idnrhon: '' (maxError arith m (idn_comparisons grd))]"

text \<open>
  Two arithmetics to run the model on. \<open>exact\<close>: real numbers, for values that the
  floating-point types hold and combine without rounding. \<open>with_nan\<close>: the same with
  \<open>None\<close> for a NaN; \<open>fmax\<close> returns its other argument when one is a NaN.
\<close>

definition exact :: "real arith" where
  "exact = \<lparr>zero_f = 0, fabs_diff = (\<lambda>a b. \<bar>a - b\<bar>), fmax_f = max\<rparr>"

definition with_nan :: "real option arith" where
  "with_nan =
     \<lparr>zero_f = Some 0,
      fabs_diff = (\<lambda>a b. case a of None \<Rightarrow> None
                         | Some x \<Rightarrow> (case b of None \<Rightarrow> None | Some y \<Rightarrow> Some \<bar>x - y\<bar>)),
      fmax_f = (\<lambda>acc d. case d of None \<Rightarrow> acc
                         | Some y \<Rightarrow> (case acc of None \<Rightarrow> Some y | Some x \<Rightarrow> Some (max x y)))\<rparr>"

subsection \<open>Start-up (lines 36 to 84)\<close>

text \<open>
  \<open>main\<close>, line by line, up to the two calls of \<open>initGEM\<close>. A loop
  \<open>for (int is=0; is < param.ns; is++)\<close> runs over \<open>[0 .. ns param - 1]\<close>, which is
  empty when \<open>param.ns\<close> is not positive.
\<close>

definition startup :: "parameters \<Rightarrow> 'v event list" where
  "startup param =
     [Call readInputFile [Ref Param, Argc, Argv],
      Call printParameters [Ref Param],
      Call saveParameters [Ref Param],
      Call setGrid [Ref Param, Ref Grd],
      Call field_allocate [Ref Grd, Ref (EMfield CPU)],
      Call field_allocate [Ref Grd, Ref (EMfield GPU)],
      Call field_aux_allocate [Ref Grd, Ref (EMfield_aux CPU)],
      Call field_aux_allocate [Ref Grd, Ref (EMfield_aux GPU)],
      New_array (Ids_array CPU) (ns param),
      New_array (Ids_array GPU) (ns param)]
   @ [Call interp_dens_species_allocate [Ref Grd, Ref (Ids CPU is), Num is].
        is \<leftarrow> [0 .. ns param - 1]]
   @ [Call interp_dens_net_allocate [Ref Grd, Ref (Idn CPU)],
      New_array (Part_array CPU) (ns param),
      New_array (Part_array GPU) (ns param)]
   @ concat [[Call particle_allocate [Ref Param, Ref (Part CPU is), Num is],
              Call particle_allocate [Ref Param, Ref (Part GPU is), Num is]].
        is \<leftarrow> [0 .. ns param - 1]]
   @ [Call initGEM [Ref Param, Ref Grd, Ref (EMfield CPU), Ref (EMfield_aux CPU),
                    Ref (Part_array CPU), Ref (Ids_array CPU)],
      Call initGEM [Ref Param, Ref Grd, Ref (EMfield GPU), Ref (EMfield_aux GPU),
                    Ref (Part_array GPU), Ref (Ids_array GPU)]]"

subsection \<open>One cycle (lines 91 to 147)\<close>

definition zero_phase :: "parameters \<Rightarrow> 'v event list" where
  "zero_phase param =
     [Call setZeroDensities [Ref (Idn CPU), Ref (Ids_array CPU), Ref Grd, Num (ns param)],
      Call setZeroDensities [Ref (Idn GPU), Ref (Ids_array GPU), Ref Grd, Num (ns param)]]"

definition mover_phase :: "parameters \<Rightarrow> 'v event list" where
  "mover_phase param =
     concat [[Call mover_PC [Ref (Part CPU is), Ref (EMfield CPU), Ref Grd, Ref Param],
              Call mover_PC_GPU_basic [Ref (Part GPU is), Ref (EMfield GPU), Ref Grd, Ref Param]].
        is \<leftarrow> [0 .. ns param - 1]]"

definition interp_phase :: "parameters \<Rightarrow> 'v event list" where
  "interp_phase param =
     concat [[Call interpP2G [Ref (Part CPU is), Ref (Ids CPU is), Ref Grd],
              Call interpP2G_GPU_basic [Ref (Part GPU is), Ref (Ids GPU is), Ref Grd]].
        is \<leftarrow> [0 .. ns param - 1]]"

definition ids_bc_phase :: "parameters \<Rightarrow> 'v event list" where
  "ids_bc_phase param =
     concat [[Call applyBCids [Ref (Ids CPU is), Ref Grd, Ref Param],
              Call applyBCids [Ref (Ids GPU is), Ref Grd, Ref Param]].
        is \<leftarrow> [0 .. ns param - 1]]"

definition sum_phase :: "parameters \<Rightarrow> 'v event list" where
  "sum_phase param =
     [Call sumOverSpecies [Ref (Idn CPU), Ref (Ids_array CPU), Ref Grd, Num (ns param)],
      Call sumOverSpecies [Ref (Idn GPU), Ref (Ids_array GPU), Ref Grd, Num (ns param)]]"

definition scalar_bc_phase :: "'v event list" where
  "scalar_bc_phase =
     [Call applyBCscalarDensN [Rhon (Idn CPU), Ref Grd, Ref Param],
      Call applyBCscalarDensN [Rhon (Idn GPU), Ref Grd, Ref Param]]"

text \<open>
  \<open>if (cycle%param.FieldOutputCycle==0)\<close>: the remainder of C++ truncates towards
  zero (\<open>smod\<close>).
\<close>

definition output_phase :: "parameters \<Rightarrow> int \<Rightarrow> 'v event list" where
  "output_phase param cycle =
     (if cycle smod FieldOutputCycle param = 0
      then [Call VTK_Write_Vectors [Num cycle, Ref Grd, Ref (EMfield CPU), Str ''cpu''],
            Call VTK_Write_Vectors [Num cycle, Ref Grd, Ref (EMfield GPU), Str ''gpu''],
            Call VTK_Write_Scalars [Num cycle, Ref Grd, Ref (Ids_array CPU), Ref (Idn CPU), Str ''cpu''],
            Call VTK_Write_Scalars [Num cycle, Ref Grd, Ref (Ids_array GPU), Ref (Idn GPU), Str ''gpu'']]
      else [])"

datatype fault = Bad_array_new_length | Signed_overflow | Division_by_zero

text \<open>
  The body of the loop for one value of \<open>cycle\<close>. The remainder is undefined for a
  zero divisor, and for \<open>INT_MIN % -1\<close>.
\<close>

definition cycle_body :: "parameters \<Rightarrow> int \<Rightarrow> fault + 'v event list" where
  "cycle_body param cycle =
     (if FieldOutputCycle param = 0 then Inl Division_by_zero
      else if cycle = - (2 ^ 31) \<and> FieldOutputCycle param = - 1 then Inl Signed_overflow
      else Inr (zero_phase param @ mover_phase param @ interp_phase param
                @ ids_bc_phase param @ sum_phase param @ scalar_bc_phase
                @ output_phase param cycle))"

fun cycles :: "parameters \<Rightarrow> int list \<Rightarrow> fault + 'v event list" where
  "cycles param [] = Inr []"
| "cycles param (c # cs) =
     (case cycle_body param c of
        Inl f \<Rightarrow> Inl f
      | Inr es \<Rightarrow> (case cycles param cs of Inl f \<Rightarrow> Inl f | Inr es' \<Rightarrow> Inr (es @ es')))"

subsection \<open>Shutdown (lines 195 to 222)\<close>

definition shutdown :: "parameters \<Rightarrow> 'v event list" where
  "shutdown param =
     [Call grid_deallocate [Ref Grd],
      Call field_deallocate [Ref Grd, Ref (EMfield CPU)],
      Call field_deallocate [Ref Grd, Ref (EMfield GPU)],
      Call interp_dens_net_deallocate [Ref Grd, Ref (Idn CPU)]]
   @ concat [[Call interp_dens_species_deallocate [Ref Grd, Ref (Ids CPU is)],
              Call particle_deallocate [Ref (Part CPU is)]].
        is \<leftarrow> [0 .. ns param - 1]]"

subsection \<open>The whole run\<close>

text \<open>
  The run of \<open>main\<close>: its events in order and the status it returns (\<open>return 0\<close>).
  \<open>new T[param.ns]\<close> throws for a negative length; the loop bound
  \<open>param.first_cycle_n + param.ncycles\<close> must fit an \<open>int\<close>.
\<close>

definition main ::
  "'v arith \<Rightarrow> parameters \<Rightarrow> grid \<Rightarrow> 'v memory \<Rightarrow> fault + ('v event list \<times> int)" where
  "main arith param grd m =
     (if ns param < 0 then Inl Bad_array_new_length
      else if \<not> fits_int (first_cycle_n param + ncycles param) then Inl Signed_overflow
      else case cycles param [first_cycle_n param .. first_cycle_n param + ncycles param - 1] of
             Inl f \<Rightarrow> Inl f
           | Inr es \<Rightarrow>
               Inr (startup param @ es @ verifier arith param grd m @ shutdown param, 0))"

definition events_of :: "fault + ('v event list \<times> int) \<Rightarrow> 'v event list" where
  "events_of r = (case r of Inl f \<Rightarrow> [] | Inr (es, status) \<Rightarrow> es)"

definition exit_status :: "fault + ('v event list \<times> int) \<Rightarrow> int option" where
  "exit_status r = (case r of Inl f \<Rightarrow> None | Inr (es, status) \<Rightarrow> Some status)"

subsection \<open>Reading a run\<close>

text \<open>
  The phase of the cycle a call belongs to: 0 zeroing of the densities, 1 mover,
  2 interpolation, 3 boundary conditions of the species densities, 4 sum over species,
  5 boundary conditions of the net charge density, 6 output; 7 for everything that is
  not a call of the cycle.
\<close>

fun phase_of :: "'v event \<Rightarrow> nat" where
  "phase_of (Call f args) =
     (if f = setZeroDensities then 0
      else if f = mover_PC \<or> f = mover_PC_GPU_basic then 1
      else if f = interpP2G \<or> f = interpP2G_GPU_basic then 2
      else if f = applyBCids then 3
      else if f = sumOverSpecies then 4
      else if f = applyBCscalarDensN then 5
      else if f = VTK_Write_Vectors \<or> f = VTK_Write_Scalars then 6
      else 7)"
| "phase_of (New_array s n) = 7"
| "phase_of (Report label v) = 7"

fun is_snapshot :: "'v event \<Rightarrow> bool" where
  "is_snapshot (Call f args) = (f = VTK_Write_Vectors \<or> f = VTK_Write_Scalars)"
| "is_snapshot (New_array s n) = False"
| "is_snapshot (Report label v) = False"

fun is_report :: "'v event \<Rightarrow> bool" where
  "is_report (Call f args) = False"
| "is_report (New_array s n) = False"
| "is_report (Report label v) = True"

text \<open>
  The store a call allocates: the second argument of \<open>field_allocate\<close>,
  \<open>field_aux_allocate\<close>, \<open>interp_dens_species_allocate\<close>, \<open>interp_dens_net_allocate\<close>
  and \<open>particle_allocate\<close>. The store a call releases: the second argument of
  \<open>field_deallocate\<close>, \<open>interp_dens_net_deallocate\<close> and
  \<open>interp_dens_species_deallocate\<close>, the first of \<open>particle_deallocate\<close> and
  \<open>grid_deallocate\<close>.
\<close>

fun first_ref :: "arg list \<Rightarrow> store option" where
  "first_ref (Ref s # rest) = Some s"
| "first_ref args = None"

fun second_ref :: "arg list \<Rightarrow> store option" where
  "second_ref (a # Ref s # rest) = Some s"
| "second_ref args = None"

fun allocated_by :: "'v event \<Rightarrow> store option" where
  "allocated_by (Call f args) =
     (if f = field_allocate \<or> f = field_aux_allocate \<or> f = interp_dens_species_allocate
         \<or> f = interp_dens_net_allocate \<or> f = particle_allocate
      then second_ref args else None)"
| "allocated_by (New_array s n) = None"
| "allocated_by (Report label v) = None"

fun released_by :: "'v event \<Rightarrow> store option" where
  "released_by (Call f args) =
     (if f = field_deallocate \<or> f = interp_dens_net_deallocate
         \<or> f = interp_dens_species_deallocate
      then second_ref args
      else if f = particle_deallocate \<or> f = grid_deallocate then first_ref args
      else None)"
| "released_by (New_array s n) = None"
| "released_by (Report label v) = None"

definition allocations :: "'v event list \<Rightarrow> store \<Rightarrow> nat" where
  "allocations tr s = length (filter (\<lambda>e. allocated_by e = Some s) tr)"

definition releases :: "'v event list \<Rightarrow> store \<Rightarrow> nat" where
  "releases tr s = length (filter (\<lambda>e. released_by e = Some s) tr)"

subsection \<open>What the called routines do\<close>

text \<open>
  The routines are not part of the driver's file. Their effects are modelled as far as
  the properties below need them, from the sentences of the specification about them.
  The model of the densities presumes that a store handed to a routine has storage;
  which stores \<open>main\<close> allocates and releases is read off the calls (\<open>allocations\<close>,
  \<open>releases\<close>) and examined on its own.
\<close>

text \<open>
  The stores an argument points to (an array of \<open>n\<close> elements stands for its elements);
  the integer argument of a call.
\<close>

fun pointed :: "int \<Rightarrow> store \<Rightarrow> store list" where
  "pointed n (Ids_array r) = map (Ids r) [0 .. n - 1]"
| "pointed n (Part_array r) = map (Part r) [0 .. n - 1]"
| "pointed n Param = [Param]"
| "pointed n Grd = [Grd]"
| "pointed n (EMfield r) = [EMfield r]"
| "pointed n (EMfield_aux r) = [EMfield_aux r]"
| "pointed n (Ids r is) = [Ids r is]"
| "pointed n (Idn r) = [Idn r]"
| "pointed n (Part r is) = [Part r is]"

fun refs :: "int \<Rightarrow> arg \<Rightarrow> store list" where
  "refs n (Ref s) = pointed n s"
| "refs n (Rhon s) = pointed n s"
| "refs n (Num k) = []"
| "refs n (Str x) = []"
| "refs n Argc = []"
| "refs n Argv = []"

fun count :: "arg list \<Rightarrow> int" where
  "count [] = 0"
| "count (a # rest) = (case a of Num n \<Rightarrow> n | _ \<Rightarrow> count rest)"

text \<open>
  Modelled from the spec: the mover is an external collaborator of the driver and not
  in its file. "Non-finite coordinates are fatal and abort the cycle"; "each component
  reports via an out-of-band status channel back to the Driver; the Driver is the sole
  arbiter of whether to continue". So a call of the mover (\<open>mover_PC\<close> or its accelerator
  variant) on a particle store whose coordinates are not finite puts
  \<open>Non_finite_particle_state\<close> on the status channel and returns to the driver.
  \<open>non_finite\<close> says which particle stores those are.
\<close>

datatype condition = Non_finite_particle_state

fun reported :: "(store \<Rightarrow> bool) \<Rightarrow> 'v event \<Rightarrow> condition list" where
  "reported non_finite (Call f args) =
     (if (f = mover_PC \<or> f = mover_PC_GPU_basic)
         \<and> (case first_ref args of None \<Rightarrow> False | Some s \<Rightarrow> non_finite s)
      then [Non_finite_particle_state] else [])"
| "reported non_finite (New_array s n) = []"
| "reported non_finite (Report label v) = []"

definition status_channel :: "(store \<Rightarrow> bool) \<Rightarrow> 'v event list \<Rightarrow> condition list" where
  "status_channel non_finite tr = concat (map (reported non_finite) tr)"

text \<open>
  Modelled from the spec: \<open>setZeroDensities\<close>, \<open>interpP2G\<close> (and its accelerator
  variant), \<open>applyBCids\<close>, \<open>sumOverSpecies\<close> and \<open>applyBCscalarDensN\<close> are external
  collaborators of the driver and not in its file. A density store holds deposits; the
  model keeps, for each store, the set of cycles whose deposits its values include.
  \<^item> "Zero all per-species and aggregate densities (both views)":
    \<open>setZeroDensities(&idn, ids, &grd, ns)\<close> empties the net store and the \<open>ns\<close> species
    stores it is handed.
  \<^item> "Contributions: \<rho>n += q w": \<open>interpP2G(&part, &ids, &grd)\<close> in cycle \<open>c\<close> adds
    deposits of cycle \<open>c\<close> to the species store it is handed.
  \<^item> "applyBCids folds ghost-node contributions into interior nodes", and
    \<open>applyBCscalarDensN\<close> "enforces the same": they move deposits between nodes of one
    store.
  \<^item> "the aggregate Density Store is filled by pointwise summation":
    \<open>sumOverSpecies(&idn, ids, &grd, ns)\<close> adds the deposits of the \<open>ns\<close> species stores
    to the net store.
  The mover and the writers change no density (comments at lines 99 to 131).
\<close>

fun effect :: "int \<Rightarrow> (store \<Rightarrow> int set) \<Rightarrow> 'v event \<Rightarrow> (store \<Rightarrow> int set)" where
  "effect c d (Call f args) =
     (if f = setZeroDensities
        then foldl (\<lambda>d s. d(s := {})) d (concat (map (refs (count args)) (take 2 args)))
      else if f = interpP2G \<or> f = interpP2G_GPU_basic
        then foldl (\<lambda>d s. d(s := d s \<union> {c})) d (concat (map (refs 0) (take 1 (drop 1 args))))
      else if f = sumOverSpecies
        then foldl (\<lambda>d' s. d'(s := d' s
                 \<union> \<Union> (set (map d (concat (map (refs (count args)) (take 1 (drop 1 args))))))))
               d (concat (map (refs 0) (take 1 args)))
      else d)"
| "effect c d (New_array s n) = d"
| "effect c d (Report label v) = d"

text \<open>The density stores of a run: the net store and the \<open>ns\<close> species stores of each replica.\<close>

definition density_stores :: "parameters \<Rightarrow> store list" where
  "density_stores param =
     concat [Idn r # map (Ids r) [0 .. ns param - 1]. r \<leftarrow> [CPU, GPU]]"

text \<open>Every density store holds deposits of cycle \<open>c\<close> only.\<close>

definition only_cycle :: "parameters \<Rightarrow> int \<Rightarrow> (store \<Rightarrow> int set) \<Rightarrow> bool" where
  "only_cycle param c d \<longleftrightarrow> (\<forall>s \<in> set (density_stores param). d s \<subseteq> {c})"

section \<open>Properties\<close>

subsection \<open>The flat index\<close>

lemma wrap_int_id: "fits_int n \<Longrightarrow> wrap_int n = n"
  by (simp add: wrap_int_def fits_int_def)

text \<open>
  On a grid whose largest index fits an \<open>int\<close> no operation of the index wraps.
\<close>

lemma flat_index_exact:
  assumes i: "0 \<le> i" "i < nxn grd" and j: "0 \<le> j" "j < nyn grd" and k: "0 \<le> k" "k < nzn grd"
    and sum: "nxn grd + nyn grd < 2 ^ 31"
    and size: "(nzn grd - 1) * (nxn grd + nyn grd) + nyn grd * nxn grd \<le> 2 ^ 31"
  shows "flat_index grd i j k = k * (nxn grd + nyn grd) + j * nxn grd + i"
proof -
  have s0: "0 \<le> nxn grd + nyn grd" using i j by simp
  have kk: "0 \<le> k * (nxn grd + nyn grd)" using k s0 by simp
  have kb: "k * (nxn grd + nyn grd) \<le> (nzn grd - 1) * (nxn grd + nyn grd)"
    using k s0 by (intro mult_right_mono) simp_all
  have jj: "0 \<le> j * nxn grd" using i j by simp
  have jb: "j * nxn grd \<le> (nyn grd - 1) * nxn grd"
    using i j by (intro mult_right_mono) simp_all
  have jb': "(nyn grd - 1) * nxn grd = nyn grd * nxn grd - nxn grd"
    by (simp add: algebra_simps)
  have nz: "0 \<le> (nzn grd - 1) * (nxn grd + nyn grd)"
    using k s0 by simp
  have f1: "fits_int (nxn grd + nyn grd)"
    using s0 sum by (simp add: fits_int_def)
  have f2: "fits_int (k * (nxn grd + nyn grd))"
    using kk kb jj jb jb' i size by (simp add: fits_int_def)
  have f3: "fits_int (j * nxn grd)"
    using nz jj jb jb' i size by (simp add: fits_int_def)
  have f4: "fits_int (k * (nxn grd + nyn grd) + j * nxn grd)"
    using kk kb jj jb jb' i size by (simp add: fits_int_def)
  have f5: "fits_int (k * (nxn grd + nyn grd) + j * nxn grd + i)"
    using kk kb jj jb jb' i size by (simp add: fits_int_def)
  show ?thesis
    by (simp add: flat_index_def wrap_int_id f1 f2 f3 f4 f5)
qed

lemma in_upto_zero: "x \<in> set [0 .. n - 1] \<longleftrightarrow> 0 \<le> x \<and> x < (n::int)"
  by auto

lemma in_ids_comparisons:
  "p \<in> set (ids_comparisons param grd) \<longleftrightarrow>
     (\<exists>is i j k. p = (Nested (Ids CPU is) i j k, Flat (Ids GPU is) (flat_index grd i j k)) \<and>
        0 \<le> is \<and> is < ns param \<and> 0 \<le> i \<and> i < nxn grd \<and>
        0 \<le> j \<and> j < nyn grd \<and> 0 \<le> k \<and> k < nzn grd)"
proof -
  have "p \<in> set (ids_comparisons param grd) \<longleftrightarrow>
     (\<exists>is \<in> set [0 .. ns param - 1]. \<exists>i \<in> set [0 .. nxn grd - 1].
      \<exists>j \<in> set [0 .. nyn grd - 1]. \<exists>k \<in> set [0 .. nzn grd - 1].
        p = (Nested (Ids CPU is) i j k, Flat (Ids GPU is) (flat_index grd i j k)))"
    unfolding ids_comparisons_def by (simp add: image_iff del: set_upto)
  also have "\<dots> \<longleftrightarrow>
     (\<exists>is i j k. p = (Nested (Ids CPU is) i j k, Flat (Ids GPU is) (flat_index grd i j k)) \<and>
        0 \<le> is \<and> is < ns param \<and> 0 \<le> i \<and> i < nxn grd \<and>
        0 \<le> j \<and> j < nyn grd \<and> 0 \<le> k \<and> k < nzn grd)"
    unfolding Bex_def in_upto_zero by blast
  finally show ?thesis .
qed

lemma in_idn_comparisons:
  "p \<in> set (idn_comparisons grd) \<longleftrightarrow>
     (\<exists>i j k. p = (Nested (Idn CPU) i j k, Flat (Idn CPU) (flat_index grd i j k)) \<and>
        0 \<le> i \<and> i < nxn grd \<and> 0 \<le> j \<and> j < nyn grd \<and> 0 \<le> k \<and> k < nzn grd)"
proof -
  have "p \<in> set (idn_comparisons grd) \<longleftrightarrow>
     (\<exists>i \<in> set [0 .. nxn grd - 1]. \<exists>j \<in> set [0 .. nyn grd - 1].
      \<exists>k \<in> set [0 .. nzn grd - 1].
        p = (Nested (Idn CPU) i j k, Flat (Idn CPU) (flat_index grd i j k)))"
    unfolding idn_comparisons_def by (simp add: image_iff del: set_upto)
  also have "\<dots> \<longleftrightarrow>
     (\<exists>i j k. p = (Nested (Idn CPU) i j k, Flat (Idn CPU) (flat_index grd i j k)) \<and>
        0 \<le> i \<and> i < nxn grd \<and> 0 \<le> j \<and> j < nyn grd \<and> 0 \<le> k \<and> k < nzn grd)"
    unfolding Bex_def in_upto_zero by blast
  finally show ?thesis .
qed

text \<open>
  C1, as the code has it. On a grid whose flat indices fit a 32-bit \<open>int\<close>
  (\<open>nxn + nyn < 2 ^ 31\<close> and \<open>(nzn - 1) * (nxn + nyn) + nyn * nxn \<le> 2 ^ 31\<close>): every pair
  of cells the comparison subtracts is the nested cell of an in-range triple
  \<open>(i, j, k)\<close> against the flat cell at \<open>k * (nxn + nyn) + j * nxn + i\<close>; every in-range
  triple is compared so, for the net density and for the density of each species; and
  the index of an in-range triple is exactly that expression, so that between in-range
  triples \<open>i\<close> has stride 1 (it varies fastest), \<open>j\<close> has stride \<open>nxn\<close> and \<open>k\<close> has
  stride \<open>nxn + nyn\<close>.
\<close>

theorem verifier_flat_index:
  assumes sum: "nxn grd + nyn grd < 2 ^ 31"
    and size: "(nzn grd - 1) * (nxn grd + nyn grd) + nyn grd * nxn grd \<le> 2 ^ 31"
  shows
  "(\<forall>a b. (a, b) \<in> set (ids_comparisons param grd @ idn_comparisons grd) \<longrightarrow>
      (\<exists>s s' i j k. a = Nested s i j k \<and>
         b = Flat s' (k * (nxn grd + nyn grd) + j * nxn grd + i) \<and>
         0 \<le> i \<and> i < nxn grd \<and> 0 \<le> j \<and> j < nyn grd \<and> 0 \<le> k \<and> k < nzn grd))
   \<and> (\<forall>i j k. 0 \<le> i \<and> i < nxn grd \<and> 0 \<le> j \<and> j < nyn grd \<and> 0 \<le> k \<and> k < nzn grd \<longrightarrow>
      (\<exists>r r'. (Nested (Idn r) i j k,
                Flat (Idn r') (k * (nxn grd + nyn grd) + j * nxn grd + i))
         \<in> set (idn_comparisons grd)) \<and>
      (\<forall>is. 0 \<le> is \<and> is < ns param \<longrightarrow>
         (Nested (Ids CPU is) i j k,
          Flat (Ids GPU is) (k * (nxn grd + nyn grd) + j * nxn grd + i))
         \<in> set (ids_comparisons param grd)) \<and>
      flat_index grd i j k = k * (nxn grd + nyn grd) + j * nxn grd + i \<and>
      (i + 1 < nxn grd \<longrightarrow> flat_index grd (i + 1) j k = flat_index grd i j k + 1) \<and>
      (j + 1 < nyn grd \<longrightarrow> flat_index grd i (j + 1) k = flat_index grd i j k + nxn grd) \<and>
      (k + 1 < nzn grd \<longrightarrow>
         flat_index grd i j (k + 1) = flat_index grd i j k + (nxn grd + nyn grd)))"
proof (intro conjI allI impI)
  fix a b
  assume "(a, b) \<in> set (ids_comparisons param grd @ idn_comparisons grd)"
  then consider "(a, b) \<in> set (ids_comparisons param grd)"
    | "(a, b) \<in> set (idn_comparisons grd)"
    by auto
  then show "\<exists>s s' i j k. a = Nested s i j k \<and>
         b = Flat s' (k * (nxn grd + nyn grd) + j * nxn grd + i) \<and>
         0 \<le> i \<and> i < nxn grd \<and> 0 \<le> j \<and> j < nyn grd \<and> 0 \<le> k \<and> k < nzn grd"
  proof cases
    case 1
    then obtain "is" i j k where
      "a = Nested (Ids CPU is) i j k" "b = Flat (Ids GPU is) (flat_index grd i j k)"
      and r: "0 \<le> i" "i < nxn grd" "0 \<le> j" "j < nyn grd" "0 \<le> k" "k < nzn grd"
      unfolding in_ids_comparisons by blast
    then show ?thesis
      using flat_index_exact [OF r sum size] by auto
  next
    case 2
    then obtain i j k where
      "a = Nested (Idn CPU) i j k" "b = Flat (Idn CPU) (flat_index grd i j k)"
      and r: "0 \<le> i" "i < nxn grd" "0 \<le> j" "j < nyn grd" "0 \<le> k" "k < nzn grd"
      unfolding in_idn_comparisons by blast
    then show ?thesis
      using flat_index_exact [OF r sum size] by auto
  qed
next
  fix i j k
  assume "0 \<le> i \<and> i < nxn grd \<and> 0 \<le> j \<and> j < nyn grd \<and> 0 \<le> k \<and> k < nzn grd"
  then have r: "0 \<le> i" "i < nxn grd" "0 \<le> j" "j < nyn grd" "0 \<le> k" "k < nzn grd"
    by simp_all
  note e = flat_index_exact [OF r sum size]
  from r have "(Nested (Idn CPU) i j k, Flat (Idn CPU) (flat_index grd i j k))
      \<in> set (idn_comparisons grd)"
    unfolding in_idn_comparisons by blast
  then show "\<exists>r r'. (Nested (Idn r) i j k,
                Flat (Idn r') (k * (nxn grd + nyn grd) + j * nxn grd + i))
         \<in> set (idn_comparisons grd)"
    unfolding e by blast
  show "flat_index grd i j k = k * (nxn grd + nyn grd) + j * nxn grd + i"
    by (rule e)
  {
    assume "i + 1 < nxn grd"
    with r have "flat_index grd (i + 1) j k
        = k * (nxn grd + nyn grd) + j * nxn grd + (i + 1)"
      by (intro flat_index_exact sum size) simp_all
    then show "flat_index grd (i + 1) j k = flat_index grd i j k + 1"
      unfolding e by simp
  }
  {
    assume "j + 1 < nyn grd"
    with r have "flat_index grd i (j + 1) k
        = k * (nxn grd + nyn grd) + (j + 1) * nxn grd + i"
      by (intro flat_index_exact sum size) simp_all
    then show "flat_index grd i (j + 1) k = flat_index grd i j k + nxn grd"
      unfolding e by (simp add: algebra_simps)
  }
  {
    assume "k + 1 < nzn grd"
    with r have "flat_index grd i j (k + 1)
        = (k + 1) * (nxn grd + nyn grd) + j * nxn grd + i"
      by (intro flat_index_exact sum size) simp_all
    then show "flat_index grd i j (k + 1) = flat_index grd i j k + (nxn grd + nyn grd)"
      unfolding e by (simp add: algebra_simps)
  }
  fix "is"
  assume "0 \<le> is \<and> is < ns param"
  with r have "(Nested (Ids CPU is) i j k, Flat (Ids GPU is) (flat_index grd i j k))
      \<in> set (ids_comparisons param grd)"
    unfolding in_ids_comparisons by blast
  then show "(Nested (Ids CPU is) i j k,
          Flat (Ids GPU is) (k * (nxn grd + nyn grd) + j * nxn grd + i))
         \<in> set (ids_comparisons param grd)"
    unfolding e .
qed

theorem verifier_flat_index_witness:
  "(Nested (Ids CPU 0) 1 1 1, Flat (Ids GPU 0) 7)
     \<in> set (ids_comparisons \<lparr>ns = 1, ncycles = 1, first_cycle_n = 1, FieldOutputCycle = 1\<rparr>
              \<lparr>nxn = 2, nyn = 2, nzn = 2\<rparr>)
   \<and> (\<exists>r r'. (Nested (Idn r) 1 1 1, Flat (Idn r') 7)
         \<in> set (idn_comparisons \<lparr>nxn = 2, nyn = 2, nzn = 2\<rparr>))
   \<and> flat_index \<lparr>nxn = 2, nyn = 2, nzn = 2\<rparr> 1 1 1 = 7"
proof -
  let ?p = "\<lparr>ns = 1, ncycles = 1, first_cycle_n = 1, FieldOutputCycle = 1\<rparr>"
  let ?g = "\<lparr>nxn = 2, nyn = 2, nzn = 2\<rparr>"
  have sum: "nxn ?g + nyn ?g < 2 ^ 31"
    and size: "(nzn ?g - 1) * (nxn ?g + nyn ?g) + nyn ?g * nxn ?g \<le> 2 ^ 31"
    by simp_all
  from verifier_flat_index [OF sum size, of ?p, THEN conjunct2, rule_format, of 1 1 1]
  show ?thesis by simp
qed

text \<open>
  C1, as the spec states it, fails on a grid whose indices do not fit an \<open>int\<close>: with
  \<open>nxn = 2147483647\<close>, \<open>nyn = 1\<close>, \<open>nzn = 2\<close> the in-range triple \<open>(0, 0, 1)\<close> is compared
  at the flat index \<open>-2147483648\<close>, while \<open>k * (nxn + nyn) + j * nxn + i\<close> is
  \<open>2147483648\<close>.
\<close>

theorem flat_index_wraps_around:
  "(Nested (Idn CPU) 0 0 1, Flat (Idn CPU) (- 2147483648))
     \<in> set (idn_comparisons \<lparr>nxn = 2147483647, nyn = 1, nzn = 2\<rparr>)
   \<and> (1::int) * (2147483647 + 1) + 0 * 2147483647 + 0 = 2147483648"
proof -
  let ?g = "\<lparr>nxn = 2147483647, nyn = 1, nzn = 2\<rparr>"
  have "flat_index ?g 0 0 1 = - 2147483648"
    by (simp add: flat_index_def wrap_int_def)
  moreover have "(Nested (Idn CPU) 0 0 1, Flat (Idn CPU) (flat_index ?g 0 0 1))
      \<in> set (idn_comparisons ?g)"
    unfolding in_idn_comparisons by simp
  ultimately show ?thesis by simp
qed

text \<open>
  C2. The flat index is not injective on the in-range triples of every grid: on the grid
  with \<open>nxn = 3\<close>, \<open>nyn = 6\<close>, \<open>nzn = 2\<close> the in-range triples \<open>(i, j, k)\<close> and
  \<open>(i, j + nxn, k - 1)\<close> are distinct and have the same flat index.
\<close>

theorem flat_index_not_injective:
  "\<exists>grd i j k.
     0 \<le> i \<and> i < nxn grd \<and> 0 \<le> j \<and> j < nyn grd \<and> 0 \<le> k \<and> k < nzn grd \<and>
     0 \<le> j + nxn grd \<and> j + nxn grd < nyn grd \<and> 0 \<le> k - 1 \<and> k - 1 < nzn grd \<and>
     (i, j, k) \<noteq> (i, j + nxn grd, k - 1) \<and>
     flat_index grd i j k = flat_index grd i (j + nxn grd) (k - 1)"
proof -
  let ?g = "\<lparr>nxn = 3, nyn = 6, nzn = 2\<rparr>"
  have "0 \<le> (0::int) \<and> 0 < nxn ?g \<and> 0 \<le> (0::int) \<and> 0 < nyn ?g \<and> 0 \<le> (1::int) \<and> 1 < nzn ?g \<and>
     0 \<le> 0 + nxn ?g \<and> 0 + nxn ?g < nyn ?g \<and> 0 \<le> (1::int) - 1 \<and> 1 - 1 < nzn ?g \<and>
     (0::int, 0::int, 1::int) \<noteq> (0, 0 + nxn ?g, 1 - 1) \<and>
     flat_index ?g 0 0 1 = flat_index ?g 0 (0 + nxn ?g) (1 - 1)"
    by (simp add: flat_index_def wrap_int_def)
  then show ?thesis by blast
qed

subsection \<open>The order of the phases\<close>

lemma phase_of_zero_phase: "e \<in> set (zero_phase param) \<Longrightarrow> phase_of e = 0"
  by (auto simp: zero_phase_def)

lemma phase_of_mover_phase: "e \<in> set (mover_phase param) \<Longrightarrow> phase_of e = 1"
  by (auto simp: mover_phase_def)

lemma phase_of_interp_phase: "e \<in> set (interp_phase param) \<Longrightarrow> phase_of e = 2"
  by (auto simp: interp_phase_def)

lemma phase_of_ids_bc_phase: "e \<in> set (ids_bc_phase param) \<Longrightarrow> phase_of e = 3"
  by (auto simp: ids_bc_phase_def)

lemma phase_of_sum_phase: "e \<in> set (sum_phase param) \<Longrightarrow> phase_of e = 4"
  by (auto simp: sum_phase_def)

lemma phase_of_scalar_bc_phase: "e \<in> set scalar_bc_phase \<Longrightarrow> phase_of e = 5"
  by (auto simp: scalar_bc_phase_def)

lemma phase_of_output_phase: "e \<in> set (output_phase param c) \<Longrightarrow> phase_of e = 6"
  by (auto simp: output_phase_def split: if_splits)

lemmas phase_of_phases = phase_of_zero_phase phase_of_mover_phase phase_of_interp_phase
  phase_of_ids_bc_phase phase_of_sum_phase phase_of_scalar_bc_phase phase_of_output_phase

lemma sorted_constant: "(\<And>x. x \<in> set xs \<Longrightarrow> f x = (c::nat)) \<Longrightarrow> sorted (map f xs)"
  by (induction xs) auto

lemma cycle_body_Inr:
  "cycle_body param c = Inr tr \<Longrightarrow>
     tr = zero_phase param @ mover_phase param @ interp_phase param
          @ ids_bc_phase param @ sum_phase param @ scalar_bc_phase @ output_phase param c"
  by (auto simp: cycle_body_def split: if_splits)

lemma cycles_Inr:
  "cycles param cs = Inr (body :: 'v event list) \<Longrightarrow>
     (\<forall>c \<in> set cs. \<exists>tr :: 'v event list. cycle_body param c = Inr tr)
     \<and> body = concat (map (\<lambda>c. projr (cycle_body param c)) cs)"
proof (induction cs arbitrary: body)
  case Nil
  then show ?case by simp
next
  case (Cons c cs)
  then show ?case by (auto split: sum.splits)
qed

lemma sorted_phase_of_cycle_body:
  assumes "cycle_body param c = Inr tr"
  shows "sorted (map phase_of tr)"
  unfolding cycle_body_Inr [OF assms] map_append sorted_append
  by (auto intro: sorted_constant dest!: phase_of_phases)

lemma in_species_loop:
  "0 \<le> is \<Longrightarrow> is < n \<Longrightarrow> set (f is) \<subseteq> set (concat (map f [0 .. n - 1]))"
  by auto

text \<open>
  C7. In the calls of one cycle, every call of an earlier phase stands before every call
  of a later phase: the movers of all species before any interpolation, every
  interpolation before the boundary conditions of the species densities, these before
  the sums over species, the sums before the boundary conditions of the net density, and
  these before any output. The calls of every species are there, for both replicas.
\<close>

theorem cycle_phases_sequential:
  assumes "cycle_body param cycle = Inr tr"
  shows "(\<forall>a b. a < length tr \<and> b < length tr \<and> phase_of (tr ! a) < phase_of (tr ! b)
            \<longrightarrow> a < b)
     \<and> (\<forall>is. 0 \<le> is \<and> is < ns param \<longrightarrow>
          Call mover_PC [Ref (Part CPU is), Ref (EMfield CPU), Ref Grd, Ref Param] \<in> set tr \<and>
          Call mover_PC_GPU_basic [Ref (Part GPU is), Ref (EMfield GPU), Ref Grd, Ref Param]
            \<in> set tr \<and>
          Call interpP2G [Ref (Part CPU is), Ref (Ids CPU is), Ref Grd] \<in> set tr \<and>
          Call interpP2G_GPU_basic [Ref (Part GPU is), Ref (Ids GPU is), Ref Grd] \<in> set tr \<and>
          Call applyBCids [Ref (Ids CPU is), Ref Grd, Ref Param] \<in> set tr \<and>
          Call applyBCids [Ref (Ids GPU is), Ref Grd, Ref Param] \<in> set tr)
     \<and> Call sumOverSpecies [Ref (Idn CPU), Ref (Ids_array CPU), Ref Grd, Num (ns param)]
          \<in> set tr
     \<and> Call sumOverSpecies [Ref (Idn GPU), Ref (Ids_array GPU), Ref Grd, Num (ns param)]
          \<in> set tr
     \<and> Call applyBCscalarDensN [Rhon (Idn CPU), Ref Grd, Ref Param] \<in> set tr
     \<and> Call applyBCscalarDensN [Rhon (Idn GPU), Ref Grd, Ref Param] \<in> set tr"
proof (intro conjI allI impI)
  fix a b
  assume ab: "a < length tr \<and> b < length tr \<and> phase_of (tr ! a) < phase_of (tr ! b)"
  show "a < b"
  proof (rule ccontr)
    assume "\<not> a < b"
    then have "b \<le> a" by simp
    with ab sorted_phase_of_cycle_body [OF assms]
    have "map phase_of tr ! b \<le> map phase_of tr ! a"
      by (intro sorted_nth_mono) simp_all
    with ab show False by simp
  qed
next
  fix "is"
  assume "0 \<le> is \<and> is < ns param"
  then have r: "is \<in> set [0 .. ns param - 1]" by simp
  show "Call mover_PC [Ref (Part CPU is), Ref (EMfield CPU), Ref Grd, Ref Param] \<in> set tr"
    unfolding cycle_body_Inr [OF assms] mover_phase_def using r by (simp del: set_upto; blast)
  show "Call mover_PC_GPU_basic [Ref (Part GPU is), Ref (EMfield GPU), Ref Grd, Ref Param]
            \<in> set tr"
    unfolding cycle_body_Inr [OF assms] mover_phase_def using r by (simp del: set_upto; blast)
  show "Call interpP2G [Ref (Part CPU is), Ref (Ids CPU is), Ref Grd] \<in> set tr"
    unfolding cycle_body_Inr [OF assms] interp_phase_def using r by (simp del: set_upto; blast)
  show "Call interpP2G_GPU_basic [Ref (Part GPU is), Ref (Ids GPU is), Ref Grd] \<in> set tr"
    unfolding cycle_body_Inr [OF assms] interp_phase_def using r by (simp del: set_upto; blast)
  show "Call applyBCids [Ref (Ids CPU is), Ref Grd, Ref Param] \<in> set tr"
    unfolding cycle_body_Inr [OF assms] ids_bc_phase_def using r by (simp del: set_upto; blast)
  show "Call applyBCids [Ref (Ids GPU is), Ref Grd, Ref Param] \<in> set tr"
    unfolding cycle_body_Inr [OF assms] ids_bc_phase_def using r by (simp del: set_upto; blast)
qed (simp_all add: cycle_body_Inr [OF assms] sum_phase_def scalar_bc_phase_def)

theorem cycle_phases_sequential_witness:
  "(cycle_body \<lparr>ns = 1, ncycles = 1, first_cycle_n = 1, FieldOutputCycle = 1\<rparr> 1
      :: fault + real event list)
     = Inr (projr (cycle_body \<lparr>ns = 1, ncycles = 1, first_cycle_n = 1, FieldOutputCycle = 1\<rparr> 1))
   \<and> Call mover_PC [Ref (Part CPU 0), Ref (EMfield CPU), Ref Grd, Ref Param]
       \<in> set (projr (cycle_body \<lparr>ns = 1, ncycles = 1, first_cycle_n = 1, FieldOutputCycle = 1\<rparr> 1
                       :: fault + real event list))
   \<and> Call interpP2G [Ref (Part CPU 0), Ref (Ids CPU 0), Ref Grd]
       \<in> set (projr (cycle_body \<lparr>ns = 1, ncycles = 1, first_cycle_n = 1, FieldOutputCycle = 1\<rparr> 1
                       :: fault + real event list))"
proof -
  let ?p = "\<lparr>ns = 1, ncycles = 1, first_cycle_n = 1, FieldOutputCycle = 1\<rparr>"
  let ?c = "cycle_body ?p 1 :: fault + real event list"
  have h: "?c = Inr (projr ?c)"
    by (simp add: cycle_body_def)
  from cycle_phases_sequential [OF h] h show ?thesis
    by simp
qed

subsection \<open>Output cadence\<close>

lemma smod_eq_0_iff_dvd: "(c::int) smod d = 0 \<longleftrightarrow> d dvd c"
  by (auto simp: smod_int_alt_def sgn_if dvd_eq_mod_eq_0 [symmetric] split: if_splits)

lemma no_snapshot_before_output:
  "filter is_snapshot (zero_phase param) = []"
  "filter is_snapshot (mover_phase param) = []"
  "filter is_snapshot (interp_phase param) = []"
  "filter is_snapshot (ids_bc_phase param) = []"
  "filter is_snapshot (sum_phase param) = []"
  "filter is_snapshot scalar_bc_phase = []"
  by (auto simp: filter_empty_conv zero_phase_def mover_phase_def interp_phase_def
      ids_bc_phase_def sum_phase_def scalar_bc_phase_def)

text \<open>
  C8, as the code has it. With a cadence for which the remainder is defined
  (\<open>FieldOutputCycle\<close> not zero, and not \<open>INT_MIN % -1\<close>), the body of cycle \<open>c\<close> runs
  and writes snapshots exactly when \<open>FieldOutputCycle\<close> divides \<open>c\<close>; then it writes
  four files, the vector fields and the scalar densities, each once tagged \<open>cpu\<close> and
  once tagged \<open>gpu\<close>.
\<close>

theorem snapshots_at_output_cadence:
  assumes "FieldOutputCycle param \<noteq> 0"
    and "\<not> (cycle = - (2 ^ 31) \<and> FieldOutputCycle param = - 1)"
  shows "\<exists>tr :: 'v event list. cycle_body param cycle = Inr tr \<and>
     filter is_snapshot tr =
       (if FieldOutputCycle param dvd cycle
        then [Call VTK_Write_Vectors [Num cycle, Ref Grd, Ref (EMfield CPU), Str ''cpu''],
              Call VTK_Write_Vectors [Num cycle, Ref Grd, Ref (EMfield GPU), Str ''gpu''],
              Call VTK_Write_Scalars
                [Num cycle, Ref Grd, Ref (Ids_array CPU), Ref (Idn CPU), Str ''cpu''],
              Call VTK_Write_Scalars
                [Num cycle, Ref Grd, Ref (Ids_array GPU), Ref (Idn GPU), Str ''gpu'']]
        else [])"
proof -
  let ?tr = "zero_phase param @ mover_phase param @ interp_phase param
          @ ids_bc_phase param @ sum_phase param @ scalar_bc_phase @ output_phase param cycle
          :: 'v event list"
  have "cycle_body param cycle = Inr ?tr"
    using assms by (simp add: cycle_body_def)
  moreover have "filter is_snapshot ?tr
        = filter is_snapshot (output_phase param cycle :: 'v event list)"
    by (simp add: no_snapshot_before_output)
  moreover have "filter is_snapshot (output_phase param cycle :: 'v event list) =
       (if FieldOutputCycle param dvd cycle
        then [Call VTK_Write_Vectors [Num cycle, Ref Grd, Ref (EMfield CPU), Str ''cpu''],
              Call VTK_Write_Vectors [Num cycle, Ref Grd, Ref (EMfield GPU), Str ''gpu''],
              Call VTK_Write_Scalars
                [Num cycle, Ref Grd, Ref (Ids_array CPU), Ref (Idn CPU), Str ''cpu''],
              Call VTK_Write_Scalars
                [Num cycle, Ref Grd, Ref (Ids_array GPU), Ref (Idn GPU), Str ''gpu'']]
        else [])"
    by (simp add: output_phase_def smod_eq_0_iff_dvd)
  ultimately show ?thesis by simp
qed

theorem snapshots_at_output_cadence_witness:
  "(\<exists>tr :: real event list.
      cycle_body \<lparr>ns = 1, ncycles = 9, first_cycle_n = 1, FieldOutputCycle = 3\<rparr> 6 = Inr tr \<and>
      filter is_snapshot tr =
        [Call VTK_Write_Vectors [Num 6, Ref Grd, Ref (EMfield CPU), Str ''cpu''],
         Call VTK_Write_Vectors [Num 6, Ref Grd, Ref (EMfield GPU), Str ''gpu''],
         Call VTK_Write_Scalars [Num 6, Ref Grd, Ref (Ids_array CPU), Ref (Idn CPU), Str ''cpu''],
         Call VTK_Write_Scalars [Num 6, Ref Grd, Ref (Ids_array GPU), Ref (Idn GPU), Str ''gpu'']])
   \<and> (\<exists>tr :: real event list.
      cycle_body \<lparr>ns = 1, ncycles = 9, first_cycle_n = 1, FieldOutputCycle = 3\<rparr> 7 = Inr tr \<and>
      filter is_snapshot tr = [])"
  using snapshots_at_output_cadence
      [where 'v = real, of "\<lparr>ns = 1, ncycles = 9, first_cycle_n = 1, FieldOutputCycle = 3\<rparr>" 6]
    snapshots_at_output_cadence
      [where 'v = real, of "\<lparr>ns = 1, ncycles = 9, first_cycle_n = 1, FieldOutputCycle = 3\<rparr>" 7]
  by simp

text \<open>
  C8, as the spec states it, fails at the cadence 0: cycle 0 is a multiple of 0, but the
  remainder \<open>0 % 0\<close> is undefined, the body of the cycle faults and the run ends without
  a snapshot.
\<close>

theorem no_snapshot_at_cadence_zero:
  "FieldOutputCycle \<lparr>ns = 1, ncycles = 1, first_cycle_n = 0, FieldOutputCycle = 0\<rparr> dvd (0::int)
   \<and> cycle_body \<lparr>ns = 1, ncycles = 1, first_cycle_n = 0, FieldOutputCycle = 0\<rparr> 0
       = (Inl Division_by_zero :: fault + real event list)
   \<and> main exact \<lparr>ns = 1, ncycles = 1, first_cycle_n = 0, FieldOutputCycle = 0\<rparr>
        \<lparr>nxn = 1, nyn = 1, nzn = 1\<rparr> \<lparr>rhon = (\<lambda>s i j k. 0), rhon_flat = (\<lambda>s n. 0)\<rparr>
       = Inl Division_by_zero"
  by (simp add: cycle_body_def main_def fits_int_def)

lemmas run_defs = main_def startup_def shutdown_def verifier_def cycle_body_def zero_phase_def
  mover_phase_def interp_phase_def ids_bc_phase_def sum_phase_def scalar_bc_phase_def
  output_phase_def fits_int_def events_of_def exit_status_def maxError_def
  ids_comparisons_def idn_comparisons_def flat_index_def wrap_int_def allocations_def
  releases_def exact_def with_nan_def status_channel_def

subsection \<open>The comparison: when it runs and what it computes\<close>

lemma maxError_foldl:
  "maxError arith m cs =
     foldl (fmax_f arith) (zero_f arith)
       (map (\<lambda>(a, b). fabs_diff arith (fetch m a) (fetch m b)) cs)"
proof -
  have "(\<lambda>acc (a, b). fmax_f arith acc (fabs_diff arith (fetch m a) (fetch m b)))
      = (\<lambda>acc x. fmax_f arith acc
           ((\<lambda>(a, b). fabs_diff arith (fetch m a) (fetch m b)) x))"
    by (auto simp: fun_eq_iff)
  then show ?thesis
    unfolding maxError_def by (simp only: foldl_map)
qed

lemma ids_differences:
  "map (\<lambda>(a, b). fabs_diff arith (fetch m a) (fetch m b)) (ids_comparisons param grd) =
     [fabs_diff arith (rhon m (Ids CPU is) i j k)
        (rhon_flat m (Ids GPU is) (flat_index grd i j k)).
        is \<leftarrow> [0 .. ns param - 1], i \<leftarrow> [0 .. nxn grd - 1],
        j \<leftarrow> [0 .. nyn grd - 1], k \<leftarrow> [0 .. nzn grd - 1]]"
  unfolding ids_comparisons_def by (simp add: map_concat comp_def)

lemma idn_differences:
  "map (\<lambda>(a, b). fabs_diff arith (fetch m a) (fetch m b)) (idn_comparisons grd) =
     [fabs_diff arith (rhon m (Idn CPU) i j k)
        (rhon_flat m (Idn CPU) (flat_index grd i j k)).
        i \<leftarrow> [0 .. nxn grd - 1], j \<leftarrow> [0 .. nyn grd - 1], k \<leftarrow> [0 .. nzn grd - 1]]"
  unfolding idn_comparisons_def by (simp add: map_concat comp_def)

text \<open>
  With exact arithmetic the figure is the largest absolute difference, and 0 when there
  is none. With a NaN among the differences it is not: \<open>fmax\<close> drops the NaN.
\<close>

lemma Max_insert_max:
  fixes a b :: "'a::linorder"
  assumes "finite S"
  shows "Max (insert (max a b) S) = Max (insert a (insert b S))"
proof (cases "S = {}")
  case True
  then show ?thesis by simp
next
  case False
  with assms show ?thesis by (simp add: max.assoc)
qed

lemma foldl_max_eq_Max:
  fixes m0 :: "'a::linorder"
  shows "foldl max m0 xs = Max (insert m0 (set xs))"
proof (induction xs arbitrary: m0)
  case Nil
  then show ?case by simp
next
  case (Cons x xs)
  have "foldl max m0 (x # xs) = Max (insert (max m0 x) (set xs))"
    by (simp add: Cons.IH)
  also have "\<dots> = Max (insert m0 (insert x (set xs)))"
    by (rule Max_insert_max) simp
  finally show ?case by simp
qed

lemma maxError_exact:
  "maxError exact m cs = Max (insert 0 ((\<lambda>(a, b). \<bar>fetch m a - fetch m b\<bar>) ` set cs))"
  unfolding maxError_foldl by (simp add: exact_def foldl_max_eq_Max case_prod_beta)

lemma maxError_drops_nan:
  "maxError with_nan \<lparr>rhon = (\<lambda>s i j k. None), rhon_flat = (\<lambda>s n. Some 1)\<rparr>
     (idn_comparisons \<lparr>nxn = 1, nyn = 1, nzn = 1\<rparr>) = Some 0"
  by (simp add: maxError_def with_nan_def idn_comparisons_def)

lemma no_report_in_startup: "filter is_report (startup param :: 'v event list) = []"
  by (auto simp: filter_empty_conv startup_def)

lemma no_report_in_shutdown: "filter is_report (shutdown param :: 'v event list) = []"
  by (auto simp: filter_empty_conv shutdown_def)

lemma no_report_in_cycle_body:
  "cycle_body param c = Inr tr \<Longrightarrow> filter is_report tr = []"
  by (auto simp: filter_empty_conv zero_phase_def mover_phase_def interp_phase_def
      ids_bc_phase_def sum_phase_def scalar_bc_phase_def output_phase_def
      dest!: cycle_body_Inr split: if_splits)

lemma no_report_in_cycles:
  "cycles param cs = Inr body \<Longrightarrow> filter is_report body = []"
proof (induction cs arbitrary: body)
  case Nil
  then show ?case by simp
next
  case (Cons c cs)
  then show ?case
    by (auto split: sum.splits simp: no_report_in_cycle_body)
qed

lemma main_Inr:
  assumes "main arith param grd m = Inr (tr :: 'v event list, status)"
  shows "\<exists>body. cycles param [first_cycle_n param .. first_cycle_n param + ncycles param - 1]
            = Inr body
          \<and> tr = startup param @ body @ verifier arith param grd m @ shutdown param
          \<and> status = 0"
  using assms by (auto simp: main_def split: if_splits sum.splits)

text \<open>
  C3, as the code has it. The comparison runs once, after the loop over the cycles has
  ended, and before the stores are released; no cycle reports anything. It prints two
  figures, each accumulated in floating point from \<open>0.0f\<close> by
  \<open>maxError = fmax(maxError, fabs(rhon[i][j][k] - rhon_flat[index]))\<close> with the flat
  index of \<open>(i, j, k)\<close>, in loop order: the first over the species and the in-range
  triples, between the nested charge density of \<open>idsCPU[is]\<close> and the flat charge
  density of \<open>idsGPU[is]\<close>; the second over the in-range triples, between the nested
  and the flat net charge density.
\<close>

theorem verifier_once_after_cycles:
  assumes "main arith param grd m = Inr (tr :: 'v event list, status)"
  shows "\<exists>body v1 v2 r r'.
      cycles param [first_cycle_n param .. first_cycle_n param + ncycles param - 1] = Inr body
    \<and> tr = startup param @ body
          @ [Report ''Max error idsrhon: '' v1, Report ''Max error idnrhon: '' v2]
          @ shutdown param
    \<and> filter is_report (startup param @ body @ shutdown param) = []
    \<and> v1 = foldl (fmax_f arith) (zero_f arith)
          [fabs_diff arith (rhon m (Ids CPU is) i j k)
             (rhon_flat m (Ids GPU is) (flat_index grd i j k)).
           is \<leftarrow> [0 .. ns param - 1], i \<leftarrow> [0 .. nxn grd - 1],
           j \<leftarrow> [0 .. nyn grd - 1], k \<leftarrow> [0 .. nzn grd - 1]]
    \<and> v2 = foldl (fmax_f arith) (zero_f arith)
          [fabs_diff arith (rhon m (Idn r) i j k)
             (rhon_flat m (Idn r') (flat_index grd i j k)).
           i \<leftarrow> [0 .. nxn grd - 1], j \<leftarrow> [0 .. nyn grd - 1], k \<leftarrow> [0 .. nzn grd - 1]]"
proof -
  from main_Inr [OF assms] obtain body where
    body: "cycles param [first_cycle_n param .. first_cycle_n param + ncycles param - 1]
            = Inr body"
    and tr: "tr = startup param @ body @ verifier arith param grd m @ shutdown param"
    by blast
  have "filter is_report (startup param @ body @ shutdown param) = []"
    by (simp add: no_report_in_startup no_report_in_shutdown no_report_in_cycles [OF body])
  moreover have "tr = startup param @ body
          @ [Report ''Max error idsrhon: '' (maxError arith m (ids_comparisons param grd)),
             Report ''Max error idnrhon: '' (maxError arith m (idn_comparisons grd))]
          @ shutdown param"
    using tr by (simp add: verifier_def)
  ultimately show ?thesis
    using body unfolding maxError_foldl ids_differences idn_differences by blast
qed

theorem verifier_once_after_cycles_witness:
  "\<exists>body.
      cycles \<lparr>ns = 1, ncycles = 2, first_cycle_n = 1, FieldOutputCycle = 1\<rparr> [1 .. 2] = Inr body
    \<and> events_of (main exact \<lparr>ns = 1, ncycles = 2, first_cycle_n = 1, FieldOutputCycle = 1\<rparr>
        \<lparr>nxn = 2, nyn = 2, nzn = 2\<rparr>
        \<lparr>rhon = (\<lambda>s i j k. real_of_int (i + 2 * j + 4 * k)),
         rhon_flat = (\<lambda>s n. if s = Idn CPU then real_of_int n - 3 else 0)\<rparr>)
      = startup \<lparr>ns = 1, ncycles = 2, first_cycle_n = 1, FieldOutputCycle = 1\<rparr> @ body
          @ [Report ''Max error idsrhon: '' 7, Report ''Max error idnrhon: '' 3]
          @ shutdown \<lparr>ns = 1, ncycles = 2, first_cycle_n = 1, FieldOutputCycle = 1\<rparr>"
proof -
  let ?p = "\<lparr>ns = 1, ncycles = 2, first_cycle_n = 1, FieldOutputCycle = 1\<rparr>"
  let ?g = "\<lparr>nxn = 2, nyn = 2, nzn = 2\<rparr>"
  let ?m = "\<lparr>rhon = (\<lambda>s i j k. real_of_int (i + 2 * j + 4 * k)),
         rhon_flat = (\<lambda>s n. if s = Idn CPU then real_of_int n - 3 else 0)\<rparr>"
  have h: "main exact ?p ?g ?m = Inr (events_of (main exact ?p ?g ?m), 0)"
    by (simp add: main_def fits_int_def cycle_body_def upto_rec1 events_of_def)
  from verifier_once_after_cycles [OF h] obtain body v1 v2 where
    body: "cycles ?p [1 .. 2] = Inr body"
    and tr: "events_of (main exact ?p ?g ?m) = startup ?p @ body
          @ [Report ''Max error idsrhon: '' v1, Report ''Max error idnrhon: '' v2]
          @ shutdown ?p"
    by auto
  have "verifier exact ?p ?g ?m
      = [Report ''Max error idsrhon: '' 7, Report ''Max error idnrhon: '' 3]"
    by (simp add: verifier_def maxError_def ids_comparisons_def idn_comparisons_def
        flat_index_def wrap_int_def exact_def upto_rec1)
  moreover from h body have "events_of (main exact ?p ?g ?m)
      = startup ?p @ body @ verifier exact ?p ?g ?m @ shutdown ?p"
    by (simp add: main_def fits_int_def events_of_def)
  ultimately show ?thesis
    using body by simp
qed

text \<open>
  C3, as the spec states it, fails: in a run of two cycles the only reports come after
  the second cycle; between the zeroing calls that open cycle 1 and those that open
  cycle 2 nothing is reported.
\<close>

theorem verifier_not_after_each_cycle:
  "filter (\<lambda>e. phase_of e = 0 \<or> is_report e)
     (events_of (main exact \<lparr>ns = 1, ncycles = 2, first_cycle_n = 1, FieldOutputCycle = 1\<rparr>
        \<lparr>nxn = 1, nyn = 1, nzn = 1\<rparr> \<lparr>rhon = (\<lambda>s i j k. 0), rhon_flat = (\<lambda>s n. 0)\<rparr>))
   = [Call setZeroDensities [Ref (Idn CPU), Ref (Ids_array CPU), Ref Grd, Num 1],
      Call setZeroDensities [Ref (Idn GPU), Ref (Ids_array GPU), Ref Grd, Num 1],
      Call setZeroDensities [Ref (Idn CPU), Ref (Ids_array CPU), Ref Grd, Num 1],
      Call setZeroDensities [Ref (Idn GPU), Ref (Ids_array GPU), Ref Grd, Num 1],
      Report ''Max error idsrhon: '' 0,
      Report ''Max error idnrhon: '' 0]"
  by (simp add: run_defs upto_rec1)

subsection \<open>What the comparison of the net density reads\<close>

text \<open>
  C4. The loop over the net charge density subtracts \<open>idnCPU.rhon_flat\<close> from
  \<open>idnCPU.rhon\<close>: both cells belong to the CPU replica. On a grid of one node, with net
  densities 1 on the CPU replica and 5 on the accelerator replica, it reports 0.
\<close>

theorem net_density_compared_with_itself:
  "idn_comparisons \<lparr>nxn = 1, nyn = 1, nzn = 1\<rparr> = [(Nested (Idn CPU) 0 0 0, Flat (Idn CPU) 0)]
   \<and> verifier exact \<lparr>ns = 1, ncycles = 1, first_cycle_n = 1, FieldOutputCycle = 1\<rparr>
        \<lparr>nxn = 1, nyn = 1, nzn = 1\<rparr>
        \<lparr>rhon = (\<lambda>s i j k. if s = Idn GPU then 5 else 1),
         rhon_flat = (\<lambda>s n. if s = Idn GPU then 5 else 1)\<rparr>
     = [Report ''Max error idsrhon: '' 0, Report ''Max error idnrhon: '' 0]"
  by (simp add: run_defs)

subsection \<open>Allocation and release\<close>

text \<open>
  C6. In a run with one species, the number of calls that allocate and that release each
  store: the species density store and the net density store of the accelerator replica
  are never allocated; the auxiliary fields of both replicas and the particles of the
  accelerator replica are never released.
\<close>

theorem stores_not_allocated_or_released:
  "exit_status (main exact \<lparr>ns = 1, ncycles = 1, first_cycle_n = 1, FieldOutputCycle = 1\<rparr>
        \<lparr>nxn = 1, nyn = 1, nzn = 1\<rparr>
        \<lparr>rhon = (\<lambda>s i j k. 0), rhon_flat = (\<lambda>s n. 0)\<rparr>) = Some 0
   \<and> map (allocations (events_of (main exact \<lparr>ns = 1, ncycles = 1, first_cycle_n = 1, FieldOutputCycle = 1\<rparr>
        \<lparr>nxn = 1, nyn = 1, nzn = 1\<rparr>
        \<lparr>rhon = (\<lambda>s i j k. 0), rhon_flat = (\<lambda>s n. 0)\<rparr>)))
       [EMfield CPU, EMfield GPU, EMfield_aux CPU, EMfield_aux GPU,
        Ids CPU 0, Ids GPU 0, Idn CPU, Idn GPU, Part CPU 0, Part GPU 0]
     = [1, 1, 1, 1, 1, 0, 1, 0, 1, 1]
   \<and> map (releases (events_of (main exact \<lparr>ns = 1, ncycles = 1, first_cycle_n = 1, FieldOutputCycle = 1\<rparr>
        \<lparr>nxn = 1, nyn = 1, nzn = 1\<rparr>
        \<lparr>rhon = (\<lambda>s i j k. 0), rhon_flat = (\<lambda>s n. 0)\<rparr>)))
       [EMfield CPU, EMfield GPU, EMfield_aux CPU, EMfield_aux GPU,
        Ids CPU 0, Ids GPU 0, Idn CPU, Idn GPU, Part CPU 0, Part GPU 0]
     = [1, 1, 0, 0, 1, 0, 1, 0, 1, 0]"
  by (simp add: run_defs)

subsection \<open>The exit status\<close>






subsection \<open>The calls of the initial condition\<close>

text \<open>
  Start-up ends with two calls of \<open>initGEM\<close>, the only ones: both get \<open>param\<close> and
  \<open>grd\<close>, the first the stores of the CPU replica, the second the corresponding stores
  of the accelerator replica. What \<open>initGEM\<close> writes is outside the driver's file.
\<close>

lemma startup_split:
  "(startup param :: 'v event list) =
     ([Call readInputFile [Ref Param, Argc, Argv],
       Call printParameters [Ref Param],
       Call saveParameters [Ref Param],
       Call setGrid [Ref Param, Ref Grd],
       Call field_allocate [Ref Grd, Ref (EMfield CPU)],
       Call field_allocate [Ref Grd, Ref (EMfield GPU)],
       Call field_aux_allocate [Ref Grd, Ref (EMfield_aux CPU)],
       Call field_aux_allocate [Ref Grd, Ref (EMfield_aux GPU)],
       New_array (Ids_array CPU) (ns param),
       New_array (Ids_array GPU) (ns param)]
      @ [Call interp_dens_species_allocate [Ref Grd, Ref (Ids CPU is), Num is].
           is \<leftarrow> [0 .. ns param - 1]]
      @ [Call interp_dens_net_allocate [Ref Grd, Ref (Idn CPU)],
         New_array (Part_array CPU) (ns param),
         New_array (Part_array GPU) (ns param)]
      @ concat [[Call particle_allocate [Ref Param, Ref (Part CPU is), Num is],
                 Call particle_allocate [Ref Param, Ref (Part GPU is), Num is]].
           is \<leftarrow> [0 .. ns param - 1]])
     @ [Call initGEM [Ref Param, Ref Grd, Ref (EMfield CPU), Ref (EMfield_aux CPU),
                      Ref (Part_array CPU), Ref (Ids_array CPU)],
        Call initGEM [Ref Param, Ref Grd, Ref (EMfield GPU), Ref (EMfield_aux GPU),
                      Ref (Part_array GPU), Ref (Ids_array GPU)]]"
  (is "_ = ?pre @ _")
  by (simp add: startup_def)

lemma startup_ends_with_initGEM:
  "\<exists>pre :: 'v event list. startup param =
       pre @ [Call initGEM [Ref Param, Ref Grd, Ref (EMfield CPU), Ref (EMfield_aux CPU),
                            Ref (Part_array CPU), Ref (Ids_array CPU)],
              Call initGEM [Ref Param, Ref Grd, Ref (EMfield GPU), Ref (EMfield_aux GPU),
                            Ref (Part_array GPU), Ref (Ids_array GPU)]]
     \<and> (\<forall>e \<in> set pre. \<forall>args. e \<noteq> Call initGEM args)"
  by (rule exI, rule conjI, rule startup_split) auto

subsection \<open>Zeroing of the densities\<close>

lemma foldl_clear:
  "foldl (\<lambda>d s. d(s := {})) d xs = (\<lambda>s. if s \<in> set xs then {} else d s)"
  by (induction xs arbitrary: d) (auto simp: fun_eq_iff)

lemma set_density_stores:
  "set (density_stores param) =
     {Idn CPU, Idn GPU} \<union> Ids CPU ` {0 .. ns param - 1} \<union> Ids GPU ` {0 .. ns param - 1}"
  by (auto simp: density_stores_def)

lemma species_stores_are_density_stores:
  "set (map (Ids r) [0 .. ns param - 1]) \<subseteq> set (density_stores param)"
  by (cases r) (auto simp: set_density_stores)

lemma zero_phase_clears:
  "foldl (effect c) d (zero_phase param) =
     (\<lambda>s. if s \<in> set (density_stores param) then {} else d s)"
  unfolding set_density_stores
  by (auto simp: zero_phase_def foldl_clear fun_eq_iff)

lemma foldl_invariant:
  "(\<And>e d. e \<in> set es \<Longrightarrow> P d \<Longrightarrow> P (f d e)) \<Longrightarrow> P d \<Longrightarrow> P (foldl f d es)"
  by (induction es arbitrary: d) auto

lemma deposit_keeps_only_cycle:
  "only_cycle param c d \<Longrightarrow> only_cycle param c (d(s := d s \<union> {c}))"
  by (auto simp: only_cycle_def)

lemma sum_keeps_only_cycle:
  assumes "only_cycle param c d" and "set srcs \<subseteq> set (density_stores param)"
  shows "only_cycle param c (d(t := d t \<union> \<Union> (set (map d srcs))))"
proof -
  have "\<And>s. s \<in> set srcs \<Longrightarrow> d s \<subseteq> {c}"
    using assms unfolding only_cycle_def by blast
  then have "\<Union> (set (map d srcs)) \<subseteq> {c}"
    by auto
  moreover have "\<And>s. s \<in> set (density_stores param) \<Longrightarrow> d s \<subseteq> {c}"
    using assms(1) unfolding only_cycle_def by blast
  ultimately show ?thesis
    unfolding only_cycle_def by (simp add: subset_iff)
qed

lemma effect_interp:
  "effect c d (Call interpP2G [Ref part, Ref ids, Ref Grd]) =
     foldl (\<lambda>d s. d(s := d s \<union> {c})) d (pointed 0 ids)"
  "effect c d (Call interpP2G_GPU_basic [Ref part, Ref ids, Ref Grd]) =
     foldl (\<lambda>d s. d(s := d s \<union> {c})) d (pointed 0 ids)"
  by simp_all

lemma effect_sum:
  "effect c d (Call sumOverSpecies [Ref (Idn r), Ref (Ids_array r), Ref Grd, Num n]) =
     d(Idn r := d (Idn r) \<union> \<Union> (set (map d (map (Ids r) [0 .. n - 1]))))"
  by simp

lemma effect_keeps_only_cycle:
  assumes "e \<in> set (mover_phase param @ interp_phase param @ ids_bc_phase param
                    @ sum_phase param @ scalar_bc_phase @ output_phase param c)"
    and "only_cycle param c d"
  shows "only_cycle param c (effect c d e)"
proof -
  from assms(1) consider
      "e \<in> set (mover_phase param)" | "e \<in> set (interp_phase param)"
    | "e \<in> set (ids_bc_phase param)" | "e \<in> set (sum_phase param)"
    | "e \<in> set scalar_bc_phase" | "e \<in> set (output_phase param c)"
    by auto
  then show ?thesis
  proof cases
    case 1
    then show ?thesis using assms(2) by (auto simp: mover_phase_def)
  next
    case 2
    then obtain r "is" where
      "e = Call interpP2G [Ref (Part r is), Ref (Ids r is), Ref Grd]
       \<or> e = Call interpP2G_GPU_basic [Ref (Part r is), Ref (Ids r is), Ref Grd]"
      by (auto simp: interp_phase_def)
    then have "effect c d e = d(Ids r is := d (Ids r is) \<union> {c})"
      by (auto simp only: effect_interp pointed.simps foldl.simps)
    then show ?thesis
      using deposit_keeps_only_cycle [OF assms(2)] by simp
  next
    case 3
    then show ?thesis using assms(2) by (auto simp: ids_bc_phase_def)
  next
    case 4
    then obtain r where
      "e = Call sumOverSpecies [Ref (Idn r), Ref (Ids_array r), Ref Grd, Num (ns param)]"
      by (auto simp: sum_phase_def)
    then have "effect c d e =
        d(Idn r := d (Idn r) \<union> \<Union> (set (map d (map (Ids r) [0 .. ns param - 1]))))"
      by (simp only: effect_sum)
    then show ?thesis
      using sum_keeps_only_cycle [OF assms(2) species_stores_are_density_stores] by simp
  next
    case 5
    then show ?thesis using assms(2) by (auto simp: scalar_bc_phase_def)
  next
    case 6
    then show ?thesis using assms(2) by (auto simp: output_phase_def split: if_splits)
  qed
qed

lemma foldl_effect_cycle_body:
  assumes "cycle_body param c = Inr (tr :: 'v event list)"
  shows "only_cycle param c (foldl (effect c) d tr)"
proof -
  let ?rest = "mover_phase param @ interp_phase param @ ids_bc_phase param
                    @ sum_phase param @ scalar_bc_phase @ output_phase param c"
  have tr: "tr = zero_phase param @ ?rest"
    using cycle_body_Inr [OF assms] by simp
  have "only_cycle param c (foldl (effect c) d (zero_phase param))"
    by (simp add: zero_phase_clears only_cycle_def)
  then have "only_cycle param c (foldl (effect c) (foldl (effect c) d (zero_phase param)) ?rest)"
    by (rule foldl_invariant [where P = "only_cycle param c" and f = "effect c", rotated])
      (rule effect_keeps_only_cycle)
  then show ?thesis
    unfolding tr foldl_append .
qed

text \<open>
  C10. Every cycle opens with the two calls of \<open>setZeroDensities\<close>, one on the net store
  and the species stores of each replica; every mover and interpolation call of the
  cycle comes after them. Whatever the density stores held when the cycle began, after
  these two calls every density store of both replicas is empty, and at the end of the
  cycle every density store holds deposits of this cycle only.
\<close>

theorem densities_zeroed_each_cycle:
  assumes "cycle_body param cycle = Inr (tr :: 'v event list)"
  shows "take 2 tr =
       [Call setZeroDensities [Ref (Idn CPU), Ref (Ids_array CPU), Ref Grd, Num (ns param)],
        Call setZeroDensities [Ref (Idn GPU), Ref (Ids_array GPU), Ref Grd, Num (ns param)]]
   \<and> (\<forall>n. n < length tr \<and> (phase_of (tr ! n) = 1 \<or> phase_of (tr ! n) = 2) \<longrightarrow> 2 \<le> n)
   \<and> (\<forall>s \<in> set (density_stores param). foldl (effect cycle) d (take 2 tr) s = {})
   \<and> (\<forall>s \<in> set (density_stores param). foldl (effect cycle) d tr s \<subseteq> {cycle})"
proof (intro conjI allI impI)
  let ?rest = "mover_phase param @ interp_phase param @ ids_bc_phase param
                    @ sum_phase param @ scalar_bc_phase @ output_phase param cycle"
  have tr: "tr = zero_phase param @ ?rest"
    using cycle_body_Inr [OF assms] by simp
  have len: "length (zero_phase param :: 'v event list) = 2"
    by (simp add: zero_phase_def)
  have take: "take 2 tr = zero_phase param"
    unfolding tr using len by simp
  show "take 2 tr =
       [Call setZeroDensities [Ref (Idn CPU), Ref (Ids_array CPU), Ref Grd, Num (ns param)],
        Call setZeroDensities [Ref (Idn GPU), Ref (Ids_array GPU), Ref Grd, Num (ns param)]]"
    unfolding take by (simp add: zero_phase_def)
  show "\<forall>s \<in> set (density_stores param). foldl (effect cycle) d (take 2 tr) s = {}"
    unfolding take by (simp add: zero_phase_clears)
  show "\<forall>s \<in> set (density_stores param). foldl (effect cycle) d tr s \<subseteq> {cycle}"
    using foldl_effect_cycle_body [OF assms, of d] by (simp add: only_cycle_def)
  fix n
  assume n: "n < length tr \<and> (phase_of (tr ! n) = 1 \<or> phase_of (tr ! n) = 2)"
  show "2 \<le> n"
  proof (rule ccontr)
    assume "\<not> 2 \<le> n"
    then have "n < length (zero_phase param :: 'v event list)" using len by simp
    then have "tr ! n \<in> set (zero_phase param)"
      unfolding tr by (simp add: nth_append)
    then have "phase_of (tr ! n) = 0"
      by (rule phase_of_zero_phase)
    with n show False by simp
  qed
qed

theorem densities_zeroed_each_cycle_witness:
  "foldl (effect 5) (\<lambda>s. {1, 2, 3, 4})
     (projr (cycle_body \<lparr>ns = 1, ncycles = 9, first_cycle_n = 1, FieldOutputCycle = 1\<rparr> 5
              :: fault + real event list))
     (Ids GPU 0) \<subseteq> {5}
   \<and> foldl (effect 5) (\<lambda>s. {1, 2, 3, 4})
     (projr (cycle_body \<lparr>ns = 1, ncycles = 9, first_cycle_n = 1, FieldOutputCycle = 1\<rparr> 5
              :: fault + real event list))
     (Idn CPU) \<subseteq> {5}"
proof -
  let ?p = "\<lparr>ns = 1, ncycles = 9, first_cycle_n = 1, FieldOutputCycle = 1\<rparr>"
  let ?c = "cycle_body ?p 5 :: fault + real event list"
  have h: "?c = Inr (projr ?c)"
    by (simp add: cycle_body_def)
  from densities_zeroed_each_cycle [OF h, of "\<lambda>s. {1, 2, 3, 4}"] show ?thesis
    by (simp add: density_stores_def)
qed

end
